theory Spec2Isabelle
  imports Main
begin

section \<open>Data model (unnamed/part_001, imported as \<open>types/chat\<close>)\<close>

text \<open>
  JavaScript strings are modelled as \<open>string\<close>: one \<open>char\<close> stands for one code unit
  below 256. A \<open>Date\<close> is modelled by its time value, a natural number.
\<close>

datatype role = User | Assistant

text \<open>The interface \<open>Message\<close>; the field \<open>id\<close> is written \<open>id_msg\<close>.\<close>

record Message =
  id_msg :: string
  content :: string
  role :: role
  timestamp :: nat

text \<open>The interface \<open>ChatState\<close>; \<open>error: string | null\<close> is an option.\<close>

record ChatState =
  messages :: "Message list"
  isLoading :: bool
  error :: "string option"

text \<open>The interface \<open>StreamChunk\<close>, fields \<open>content\<close> and \<open>done\<close>.\<close>

record StreamChunk =
  content_c :: string
  done_c :: bool

section \<open>The message store (unnamed/part_000, imported as \<open>store/chatStore\<close>)\<close>

text \<open>
  \<open>addMessage\<close> calls \<open>uuidv4()\<close> and \<open>new Date()\<close>; their results are the first two
  arguments here. zustand's \<open>set\<close> merges the given fields into the state and keeps
  the others.
\<close>

definition addMessage :: "string \<Rightarrow> nat \<Rightarrow> string \<Rightarrow> role \<Rightarrow> ChatState \<Rightarrow> ChatState" where
  "addMessage uuid date c r st =
     st\<lparr>messages := messages st @
       [\<lparr>id_msg = uuid, content = c, role = r, timestamp = date\<rparr>]\<rparr>"

definition setLoading :: "bool \<Rightarrow> ChatState \<Rightarrow> ChatState" where
  "setLoading loading st = st\<lparr>isLoading := loading\<rparr>"

definition setError :: "string option \<Rightarrow> ChatState \<Rightarrow> ChatState" where
  "setError e st = st\<lparr>error := e\<rparr>"

definition clearMessages :: "ChatState \<Rightarrow> ChatState" where
  "clearMessages st = st\<lparr>messages := []\<rparr>"

definition initial_store :: ChatState where
  "initial_store = \<lparr>messages = [], isLoading = False, error = None\<rparr>"

section \<open>The platform seen by the hook\<close>

text \<open>
  A value that a \<open>throw\<close> or a rejected promise carries: an \<open>Error\<close> object with its
  \<open>message\<close>, or something that is not an instance of \<open>Error\<close>.
\<close>

datatype thrown = Error string | NotAnError

text \<open>
  What \<open>JSON.parse(new TextDecoder().decode(value))\<close> does on one block the reader
  returns (lines 61 to 63): it throws a \<open>SyntaxError\<close> with a message, or it returns
  a value. The source declares the value a \<open>StreamChunk\<close> and checks nothing more;
  the model takes it at that type, so a block is known by the message, or by the
  \<open>content\<close> and \<open>done\<close> that lines 65 and 67 read.
\<close>

datatype parsed = SyntaxError string | Parsed StreamChunk

text \<open>
  One \<open>await reader.read()\<close>: the promise rejects, or it yields a block
  (\<open>done: false\<close>). The body of a response is the list of these results in the order
  the reader delivers them; past the end of the list, \<open>read\<close> yields \<open>done: true\<close>.
\<close>

datatype read_result = Rejected thrown | Block parsed

text \<open>
  The \<open>Response\<close> of \<open>fetch\<close>: \<open>ok\<close>, \<open>status\<close>, the outcome of \<open>await text()\<close>, and
  \<open>body\<close> (absent when null).
\<close>

record Response =
  ok :: bool
  status :: nat
  text_body :: "thrown + string"
  body :: "read_result list option"

text \<open>The request of the exchange: the object given to \<open>JSON.stringify\<close> and the options of \<open>fetch\<close>.\<close>

record WireMessage =
  wrole :: role
  wcontent :: string

record ChatRequest =
  req_messages :: "WireMessage list"
  stream :: bool

record RequestInit =
  req_method :: string
  req_headers :: "(string \<times> string) list"
  req_body :: ChatRequest

text \<open>
  The world of one exchange: \<open>fetch\<close> (its promise rejects or resolves to a response),
  and the results of the k-th call of \<open>uuidv4()\<close> and \<open>new Date()\<close> in the exchange.
\<close>

record World =
  fetch :: "string \<Rightarrow> RequestInit \<Rightarrow> thrown + Response"
  uuidv4 :: "nat \<Rightarrow> string"
  now :: "nat \<Rightarrow> nat"

section \<open>The hook useChat (frontend/src/hooks/useChat.ts)\<close>

text \<open>The state the hook works on: the store and its own \<open>isStreaming\<close>.\<close>

record Client =
  store :: ChatState
  isStreaming :: bool

definition initial_client :: Client where
  "initial_client = \<lparr>store = initial_store, isStreaming = False\<rparr>"

definition on_store :: "(ChatState \<Rightarrow> ChatState) \<Rightarrow> Client \<Rightarrow> Client" where
  "on_store f c = c\<lparr>store := f (store c)\<rparr>"

text \<open>The decimal digits of a number, as a template literal prints \<open>response.status\<close>.\<close>

definition digit_char :: "nat \<Rightarrow> char" where
  "digit_char d = ''0123456789'' ! d"

function show_nat :: "nat \<Rightarrow> string" where
  "show_nat n = (if n < 10 then [digit_char n] else show_nat (n div 10) @ [digit_char (n mod 10)])"
  by pat_completeness auto
termination
  by (relation "measure id") auto

text \<open>Lines 12 to 16: the part of \<open>sendMessage\<close> that runs before \<open>fetch\<close> is called.\<close>

definition begin_send :: "World \<Rightarrow> string \<Rightarrow> Client \<Rightarrow> Client" where
  "begin_send w c0 cl =
     on_store (addMessage (uuidv4 w 0) (now w 0) c0 User)
       (on_store (setError None) (on_store (setLoading True) cl))"

text \<open>Lines 21 to 33: the address and the options \<open>fetch\<close> is called with.\<close>

definition chat_url :: string where
  "chat_url = ''/api/v1/chat''"

definition chat_request :: "string \<Rightarrow> RequestInit" where
  "chat_request c0 =
     \<lparr>req_method = ''POST'',
      req_headers = [(''Content-Type'', ''application/json'')],
      req_body = \<lparr>req_messages = [\<lparr>wrole = User, wcontent = c0\<rparr>], stream = True\<rparr>\<rparr>"

text \<open>
  Lines 53 to 72: the read loop. The arguments are the reads still to come, the local
  \<open>accumulatedContent\<close> and the state; the result is the final \<open>accumulatedContent\<close>,
  the state, and the value thrown, if any.
\<close>

fun read_loop :: "World \<Rightarrow> read_result list \<Rightarrow> string \<Rightarrow> Client \<Rightarrow> string \<times> Client \<times> thrown option" where
  "read_loop w [] acc cl = (acc, cl, None)"
| "read_loop w (Rejected e # rest) acc cl = (acc, cl, Some e)"
| "read_loop w (Block (SyntaxError m) # rest) acc cl = (acc, cl, Some (Error m))"
| "read_loop w (Block (Parsed d) # rest) acc cl =
     (let acc' = acc @ content_c d in
      if done_c d
      then (acc', on_store (addMessage (uuidv4 w 1) (now w 1) acc' Assistant) cl, None)
      else read_loop w rest acc' cl)"

text \<open>Lines 21 to 72: from the call of \<open>fetch\<close> to the end of the \<open>try\<close> block.\<close>

definition after_fetch :: "World \<Rightarrow> string \<Rightarrow> Client \<Rightarrow> Client \<times> thrown option" where
  "after_fetch w c0 cl =
     (case fetch w chat_url (chat_request c0) of
        Inl e \<Rightarrow> (cl, Some e)
      | Inr response \<Rightarrow>
          if \<not> ok response then
            (case text_body response of
               Inl e \<Rightarrow> (cl, Some e)
             | Inr errorText \<Rightarrow>
                 (cl, Some (Error (''Failed to send message: '' @ show_nat (status response)
                                    @ '' '' @ errorText))))
          else
            (case body response of
               None \<Rightarrow> (cl, Some (Error ''No response stream available''))
             | Some reader \<Rightarrow> snd (read_loop w reader [] (cl\<lparr>isStreaming := True\<rparr>))))"

definition try_block :: "World \<Rightarrow> string \<Rightarrow> Client \<Rightarrow> Client \<times> thrown option" where
  "try_block w c0 cl = after_fetch w c0 (begin_send w c0 cl)"

text \<open>Lines 73 to 80: \<open>catch\<close> and \<open>finally\<close>.\<close>

definition catch_message :: "thrown \<Rightarrow> string" where
  "catch_message err = (case err of Error m \<Rightarrow> m | NotAnError \<Rightarrow> ''An error occurred'')"

definition catch_finally :: "Client \<times> thrown option \<Rightarrow> Client" where
  "catch_finally r =
     (let cl = (case snd r of
                  None \<Rightarrow> fst r
                | Some err \<Rightarrow> on_store (setError (Some (catch_message err))) (fst r))
      in (on_store (setLoading False) cl)\<lparr>isStreaming := False\<rparr>)"

definition sendMessage :: "World \<Rightarrow> string \<Rightarrow> Client \<Rightarrow> Client" where
  "sendMessage w c0 cl = catch_finally (try_block w c0 cl)"

subsection \<open>The call, one \<open>await\<close> at a time\<close>

text \<open>
  \<open>sendMessage\<close> is asynchronous: it gives control back at each \<open>await\<close>, and other
  events of the page can run before it goes on. A call that has started is waiting in
  one of three places: for \<open>fetch\<close> (line 21), for \<open>response.text()\<close> (line 37), or
  for \<open>reader.read()\<close> (line 54), where the reads still to come and the local
  \<open>accumulatedContent\<close> belong to the call.
\<close>

datatype phase =
  AwaitFetch
| AwaitText Response
| AwaitRead "read_result list" string

text \<open>
  \<open>resume\<close> runs a waiting call up to its next \<open>await\<close>, or to the end of \<open>finally\<close>;
  the result is the state and the place where the call waits next, if it has not ended.
\<close>

fun resume :: "World \<Rightarrow> string \<Rightarrow> phase \<Rightarrow> Client \<Rightarrow> Client \<times> phase option" where
  "resume w c0 AwaitFetch cl =
     (case fetch w chat_url (chat_request c0) of
        Inl e \<Rightarrow> (catch_finally (cl, Some e), None)
      | Inr response \<Rightarrow>
          if \<not> ok response then (cl, Some (AwaitText response))
          else
            (case body response of
               None \<Rightarrow> (catch_finally (cl, Some (Error ''No response stream available'')), None)
             | Some reader \<Rightarrow> (cl\<lparr>isStreaming := True\<rparr>, Some (AwaitRead reader []))))"
| "resume w c0 (AwaitText response) cl =
     (case text_body response of
        Inl e \<Rightarrow> (catch_finally (cl, Some e), None)
      | Inr errorText \<Rightarrow>
          (catch_finally
             (cl, Some (Error (''Failed to send message: '' @ show_nat (status response)
                                @ '' '' @ errorText))), None))"
| "resume w c0 (AwaitRead [] acc) cl = (catch_finally (cl, None), None)"
| "resume w c0 (AwaitRead (Rejected e # rest) acc) cl = (catch_finally (cl, Some e), None)"
| "resume w c0 (AwaitRead (Block (SyntaxError m) # rest) acc) cl =
     (catch_finally (cl, Some (Error m)), None)"
| "resume w c0 (AwaitRead (Block (Parsed d) # rest) acc) cl =
     (let acc' = acc @ content_c d in
      if done_c d
      then (catch_finally (on_store (addMessage (uuidv4 w 1) (now w 1) acc' Assistant) cl, None), None)
      else (cl, Some (AwaitRead rest acc')))"

text \<open>The call resumed up to n times, with nothing else in between.\<close>

fun resume_n :: "nat \<Rightarrow> World \<Rightarrow> string \<Rightarrow> phase option \<Rightarrow> Client \<Rightarrow> Client \<times> phase option" where
  "resume_n 0 w c0 ph cl = (cl, ph)"
| "resume_n (Suc n) w c0 None cl = (cl, None)"
| "resume_n (Suc n) w c0 (Some ph) cl =
     (let r = resume w c0 ph cl in resume_n n w c0 (snd r) (fst r))"

section \<open>The input component (ChatInput, frontend/src/components/Chat.tsx)\<close>

text \<open>
  \<open>String.prototype.trim\<close> removes white space and line terminators from both ends.
  Of the code units below 256 these are TAB, LF, VT, FF, CR, SPACE and NBSP.
\<close>

definition js_whitespace :: "char \<Rightarrow> bool" where
  "js_whitespace ch = (of_char ch \<in> {9, 10, 11, 12, 13, 32, 160 :: nat})"

definition trim :: "string \<Rightarrow> string" where
  "trim s = rev (dropWhile js_whitespace (rev (dropWhile js_whitespace s)))"

text \<open>
  \<open>handleSend\<close>, lines 70 to 75. \<open>message\<close> is the state of the component, \<open>onSend\<close>
  and \<open>disabled\<close> are its props; \<open>onSend\<close> acts on the rest of the page, of type \<open>'a\<close>.
  The result is the new \<open>message\<close> and the page.
\<close>

definition handleSend :: "(string \<Rightarrow> 'a \<Rightarrow> 'a) \<Rightarrow> bool \<Rightarrow> string \<Rightarrow> 'a \<Rightarrow> string \<times> 'a" where
  "handleSend onSend disabled message page =
     (if trim message \<noteq> [] \<and> \<not> disabled
      then ([], onSend (trim message) page)
      else (message, page))"

text \<open>\<open>handleKeyPress\<close>, lines 77 to 82.\<close>

definition handleKeyPress :: "(string \<Rightarrow> 'a \<Rightarrow> 'a) \<Rightarrow> bool \<Rightarrow> string \<Rightarrow> bool \<Rightarrow> string \<Rightarrow> 'a \<Rightarrow> string \<times> 'a" where
  "handleKeyPress onSend disabled key shiftKey message page =
     (if key = ''Enter'' \<and> \<not> shiftKey
      then handleSend onSend disabled message page
      else (message, page))"

text \<open>The \<open>disabled\<close> attribute of the button, line 103.\<close>

definition button_disabled :: "bool \<Rightarrow> string \<Rightarrow> bool" where
  "button_disabled disabled message = (disabled \<or> trim message = [])"

section \<open>The page (Chat, frontend/src/components/Chat.tsx)\<close>

text \<open>
  The page holds the client state, the \<open>message\<close> of the input component (\<open>draft\<close>),
  and the calls of \<open>sendMessage\<close> that have started and not yet ended, each with its
  world, its argument and the place where it waits.
\<close>

record Call =
  call_world :: World
  call_arg :: string
  call_phase :: phase

record Page =
  client :: Client
  draft :: string
  pending :: "Call list"

definition initial_page :: Page where
  "initial_page = \<lparr>client = initial_client, draft = [], pending = []\<rparr>"

text \<open>The prop \<open>disabled\<close> that \<open>Chat\<close> gives the input, line 56.\<close>

definition chat_disabled :: "Client \<Rightarrow> bool" where
  "chat_disabled cl = (isLoading (store cl) \<or> isStreaming cl)"

text \<open>
  The prop \<open>onSend\<close>, line 55: the call of \<open>sendMessage\<close>. It runs up to the first
  \<open>await\<close> and is pending from then on.
\<close>

definition start_send :: "World \<Rightarrow> string \<Rightarrow> Page \<Rightarrow> Page" where
  "start_send w c0 p =
     p\<lparr>client := begin_send w c0 (client p),
       pending := pending p @ [\<lparr>call_world = w, call_arg = c0, call_phase = AwaitFetch\<rparr>]\<rparr>"

text \<open>The k-th pending call goes on to its next \<open>await\<close>, or ends.\<close>

definition resume_call :: "nat \<Rightarrow> Page \<Rightarrow> Page" where
  "resume_call k p =
     (if k < length (pending p)
      then
        (let c = pending p ! k;
             r = resume (call_world c) (call_arg c) (call_phase c) (client p)
         in p\<lparr>client := fst r,
              pending := (case snd r of
                            None \<Rightarrow> take k (pending p) @ drop (Suc k) (pending p)
                          | Some ph \<Rightarrow> (pending p)[k := c\<lparr>call_phase := ph\<rparr>])\<rparr>)
      else p)"

text \<open>
  The events of the page: the user edits the text (\<open>onChange\<close>), clicks the button,
  presses a key in the text area, or a promise that a pending call awaits settles.
  A disabled button gets no click and a disabled text area no key.
\<close>

datatype event =
  Change string
| Click World
| KeyPress string bool World
| Settle nat

definition with_draft :: "string \<times> Page \<Rightarrow> Page" where
  "with_draft r = (snd r)\<lparr>draft := fst r\<rparr>"

fun step :: "event \<Rightarrow> Page \<Rightarrow> Page" where
  "step (Change m) p = p\<lparr>draft := m\<rparr>"
| "step (Click w) p =
     (if button_disabled (chat_disabled (client p)) (draft p) then p
      else with_draft (handleSend (start_send w) (chat_disabled (client p)) (draft p) p))"
| "step (KeyPress key shiftKey w) p =
     (if chat_disabled (client p) then p
      else with_draft (handleKeyPress (start_send w) (chat_disabled (client p)) key shiftKey (draft p) p))"
| "step (Settle k) p = resume_call k p"

fun run :: "event list \<Rightarrow> Page \<Rightarrow> Page" where
  "run [] p = p"
| "run (e # es) p = run es (step e p)"

section \<open>Notions used to state the properties\<close>

text \<open>The two messages an exchange can append, with the identifiers and dates the world gives.\<close>

definition user_message :: "World \<Rightarrow> string \<Rightarrow> Message" where
  "user_message w c0 = \<lparr>id_msg = uuidv4 w 0, content = c0, role = User, timestamp = now w 0\<rparr>"

definition assistant_message :: "World \<Rightarrow> string \<Rightarrow> Message" where
  "assistant_message w a = \<lparr>id_msg = uuidv4 w 1, content = a, role = Assistant, timestamp = now w 1\<rparr>"

text \<open>
  The chunks the read loop consumes from a body: the parsed chunks up to the first
  one with \<open>done\<close>, that one included, or up to the first read that throws or the end.
\<close>

fun consumed :: "read_result list \<Rightarrow> StreamChunk list" where
  "consumed [] = []"
| "consumed (Rejected e # rest) = []"
| "consumed (Block (SyntaxError m) # rest) = []"
| "consumed (Block (Parsed d) # rest) = d # (if done_c d then [] else consumed rest)"

text \<open>A message of the history as the wire format \<open>{role, content}\<close> would carry it.\<close>

definition wire_of :: "Message \<Rightarrow> WireMessage" where
  "wire_of m = \<lparr>wrole = role m, wcontent = content m\<rparr>"


text \<open>A user message holds a text that is not empty and that \<open>trim\<close> leaves as it is.\<close>

definition trimmed_if_user :: "Message \<Rightarrow> bool" where
  "trimmed_if_user m = (role m = User \<longrightarrow> content m \<noteq> [] \<and> trim (content m) = content m)"

subsection \<open>Example worlds\<close>

definition chunk :: "string \<Rightarrow> bool \<Rightarrow> read_result" where
  "chunk c d = Block (Parsed \<lparr>content_c = c, done_c = d\<rparr>)"

text \<open>A backend that answers every request with status 200 and the given body.\<close>

definition streaming_world :: "read_result list \<Rightarrow> World" where
  "streaming_world reads =
     \<lparr>fetch = (\<lambda>url init. Inr \<lparr>ok = True, status = 200, text_body = Inr [], body = Some reads\<rparr>),
      uuidv4 = (\<lambda>k. if k = 0 then ''id-user'' else ''id-assistant''),
      now = (\<lambda>k. 1000 + k)\<rparr>"

text \<open>The same backend, but one that rejects every request that does not hold exactly one message.\<close>

definition single_message_world :: "read_result list \<Rightarrow> World" where
  "single_message_world reads =
     \<lparr>fetch = (\<lambda>url init.
         if length (req_messages (req_body init)) = 1
         then Inr \<lparr>ok = True, status = 200, text_body = Inr [], body = Some reads\<rparr>
         else Inl (Error ''unexpected request'')),
      uuidv4 = (\<lambda>k. if k = 0 then ''id-user'' else ''id-assistant''),
      now = (\<lambda>k. 1000 + k)\<rparr>"

text \<open>A backend that answers every request with the given status and text, and no success.\<close>

definition failing_world :: "nat \<Rightarrow> string \<Rightarrow> World" where
  "failing_world code txt =
     \<lparr>fetch = (\<lambda>url init. Inr \<lparr>ok = False, status = code, text_body = Inr txt, body = None\<rparr>),
      uuidv4 = (\<lambda>k. if k = 0 then ''id-user'' else ''id-assistant''),
      now = (\<lambda>k. 1000 + k)\<rparr>"

text \<open>A backend that streams \<open>Hello\<close> in one chunk with \<open>done\<close> true.\<close>

definition hello_world :: World where
  "hello_world = streaming_world [chunk ''Hello'' True]"


section \<open>Properties\<close>

declare show_nat.simps [simp del]

declare step.simps [simp del]

lemmas store_defs = addMessage_def setLoading_def setError_def on_store_def

lemmas example_defs = streaming_world_def single_message_world_def failing_world_def chunk_def
  initial_client_def initial_store_def user_message_def assistant_message_def

subsection \<open>The hook\<close>

lemma read_loop_not_done:
  "\<forall>d\<in>set ds. \<not> done_c d \<Longrightarrow>
   read_loop w (map (\<lambda>d. Block (Parsed d)) ds @ rest) acc cl =
   read_loop w rest (acc @ concat (map content_c ds)) cl"
  by (induction ds arbitrary: acc) simp_all

lemma begin_send_eq:
  "begin_send w c0 cl =
     \<lparr>store = \<lparr>messages = messages (store cl) @ [user_message w c0],
        isLoading = True, error = None\<rparr>,
      isStreaming = isStreaming cl\<rparr>"
  by (simp add: begin_send_def store_defs user_message_def)

lemma sendMessage_ok_body:
  assumes "fetch w chat_url (chat_request c0) = Inr r" and "ok r" and "body r = Some reads"
  shows "sendMessage w c0 cl =
     catch_finally (snd (read_loop w reads [] ((begin_send w c0 cl)\<lparr>isStreaming := True\<rparr>)))"
  using assms by (simp add: sendMessage_def try_block_def after_fetch_def)

lemma read_loop_cong_world:
  "uuidv4 w = uuidv4 w' \<Longrightarrow> now w = now w' \<Longrightarrow> read_loop w reads acc x = read_loop w' reads acc x"
  by (induction w reads acc x rule: read_loop.induct) (simp_all add: Let_def)

lemma read_loop_messages:
  "messages (store (fst (snd (read_loop w reads acc cl)))) = messages (store cl)
   \<or> messages (store (fst (snd (read_loop w reads acc cl)))) =
       messages (store cl) @ [assistant_message w (fst (read_loop w reads acc cl))]"
  by (induction w reads acc cl rule: read_loop.induct)
    (simp_all add: Let_def store_defs assistant_message_def)

lemma read_loop_acc:
  "fst (read_loop w reads acc cl) = acc @ concat (map content_c (consumed reads))"
  by (induction w reads acc cl rule: read_loop.induct) (simp_all add: Let_def)

lemma read_loop_done:
  "done_c t \<Longrightarrow>
   read_loop w (Block (Parsed t) # rest) acc cl =
     (acc @ content_c t, on_store (addMessage (uuidv4 w 1) (now w 1) (acc @ content_c t) Assistant) cl, None)"
  by (simp add: Let_def)

lemma read_loop_shape:
  "fst (snd (read_loop w reads acc cl)) = cl
   \<or> snd (snd (read_loop w reads acc cl)) = None
     \<and> (\<exists>a. fst (snd (read_loop w reads acc cl)) =
            on_store (addMessage (uuidv4 w 1) (now w 1) a Assistant) cl)"
  by (induction w reads acc cl rule: read_loop.induct) (auto simp add: Let_def)

lemma after_fetch_shape:
  "fst (after_fetch w c0 cl) = cl \<or> fst (after_fetch w c0 cl) = cl\<lparr>isStreaming := True\<rparr>
   \<or> snd (after_fetch w c0 cl) = None
     \<and> (\<exists>a. fst (after_fetch w c0 cl) =
            on_store (addMessage (uuidv4 w 1) (now w 1) a Assistant) (cl\<lparr>isStreaming := True\<rparr>))"
  using read_loop_shape [of w _ "[]" "cl\<lparr>isStreaming := True\<rparr>"]
  by (auto simp add: after_fetch_def split: sum.splits option.splits)

lemma settle_shape:
  "isLoading (store (catch_finally (after_fetch w c0 cl))) = False
   \<and> isStreaming (catch_finally (after_fetch w c0 cl)) = False
   \<and> (messages (store (catch_finally (after_fetch w c0 cl))) = messages (store cl)
      \<or> error (store (catch_finally (after_fetch w c0 cl))) = error (store cl)
        \<and> (\<exists>a. messages (store (catch_finally (after_fetch w c0 cl))) =
              messages (store cl) @ [assistant_message w a]))"
proof -
  let ?r = "after_fetch w c0 cl"
  consider "fst ?r = cl" | "fst ?r = cl\<lparr>isStreaming := True\<rparr>"
    | a where "snd ?r = None"
      and "fst ?r = on_store (addMessage (uuidv4 w 1) (now w 1) a Assistant) (cl\<lparr>isStreaming := True\<rparr>)"
    using after_fetch_shape [of w c0 cl] by blast
  then show ?thesis
  proof cases
    case 1
    then show ?thesis
      by (cases "snd ?r") (simp_all add: catch_finally_def store_defs)
  next
    case 2
    then show ?thesis
      by (cases "snd ?r") (simp_all add: catch_finally_def store_defs)
  next
    case 3
    then show ?thesis
      by (simp add: catch_finally_def store_defs assistant_message_def)
  qed
qed

lemma sendMessage_shape:
  "isLoading (store (sendMessage w c0 cl)) = False
   \<and> isStreaming (sendMessage w c0 cl) = False
   \<and> (messages (store (sendMessage w c0 cl)) = messages (store cl) @ [user_message w c0]
      \<or> error (store (sendMessage w c0 cl)) = None
        \<and> (\<exists>a. messages (store (sendMessage w c0 cl)) =
              messages (store cl) @ [user_message w c0, assistant_message w a]))"
  using settle_shape [of w c0 "begin_send w c0 cl"]
  by (simp add: sendMessage_def try_block_def begin_send_eq)

subsection \<open>The call, one \<open>await\<close> at a time\<close>

text \<open>
  Resumed often enough, with nothing in between, a call that waits for \<open>fetch\<close> ends,
  and the state it leaves is the one \<open>sendMessage\<close> gives.
\<close>

lemma resume_n_None: "resume_n n w c0 None cl = (cl, None)"
  by (cases n) simp_all

lemma resume_reads:
  "\<exists>n. resume_n n w c0 (Some (AwaitRead reads acc)) cl =
     (catch_finally (snd (read_loop w reads acc cl)), None)"
proof (induction w reads acc cl rule: read_loop.induct)
  case (1 w acc cl)
  have "resume_n (Suc 0) w c0 (Some (AwaitRead [] acc)) cl =
      (catch_finally (snd (read_loop w [] acc cl)), None)"
    by simp
  then show ?case by blast
next
  case (2 w e rest acc cl)
  have "resume_n (Suc 0) w c0 (Some (AwaitRead (Rejected e # rest) acc)) cl =
      (catch_finally (snd (read_loop w (Rejected e # rest) acc cl)), None)"
    by simp
  then show ?case by blast
next
  case (3 w m rest acc cl)
  have "resume_n (Suc 0) w c0 (Some (AwaitRead (Block (SyntaxError m) # rest) acc)) cl =
      (catch_finally (snd (read_loop w (Block (SyntaxError m) # rest) acc cl)), None)"
    by simp
  then show ?case by blast
next
  case (4 w d rest acc cl)
  show ?case
  proof (cases "done_c d")
    case True
    then have "resume_n (Suc 0) w c0 (Some (AwaitRead (Block (Parsed d) # rest) acc)) cl =
        (catch_finally (snd (read_loop w (Block (Parsed d) # rest) acc cl)), None)"
      by (simp add: Let_def)
    then show ?thesis by blast
  next
    case False
    with 4 obtain n where
      "resume_n n w c0 (Some (AwaitRead rest (acc @ content_c d))) cl =
        (catch_finally (snd (read_loop w rest (acc @ content_c d) cl)), None)"
      by blast
    with False have "resume_n (Suc n) w c0 (Some (AwaitRead (Block (Parsed d) # rest) acc)) cl =
        (catch_finally (snd (read_loop w (Block (Parsed d) # rest) acc cl)), None)"
      by (simp add: Let_def)
    then show ?thesis by blast
  qed
qed

lemma resume_after_fetch:
  "\<exists>n. resume_n n w c0 (Some AwaitFetch) cl = (catch_finally (after_fetch w c0 cl), None)"
proof (cases "fetch w chat_url (chat_request c0)")
  case (Inl e)
  then have "resume_n (Suc 0) w c0 (Some AwaitFetch) cl = (catch_finally (after_fetch w c0 cl), None)"
    by (simp add: after_fetch_def)
  then show ?thesis by blast
next
  case (Inr r)
  show ?thesis
  proof (cases "ok r")
    case False
    with Inr have "resume_n (Suc (Suc 0)) w c0 (Some AwaitFetch) cl =
        (catch_finally (after_fetch w c0 cl), None)"
      by (simp add: after_fetch_def split: sum.splits)
    then show ?thesis by blast
  next
    case True
    show ?thesis
    proof (cases "body r")
      case None
      with Inr True have "resume_n (Suc 0) w c0 (Some AwaitFetch) cl =
          (catch_finally (after_fetch w c0 cl), None)"
        by (simp add: after_fetch_def)
      then show ?thesis by blast
    next
      case (Some reader)
      obtain n where "resume_n n w c0 (Some (AwaitRead reader [])) (cl\<lparr>isStreaming := True\<rparr>) =
          (catch_finally (snd (read_loop w reader [] (cl\<lparr>isStreaming := True\<rparr>))), None)"
        using resume_reads by blast
      with Inr True Some have "resume_n (Suc n) w c0 (Some AwaitFetch) cl =
          (catch_finally (after_fetch w c0 cl), None)"
        by (simp add: after_fetch_def)
      then show ?thesis by blast
    qed
  qed
qed

lemma resume_sendMessage:
  "\<exists>n. resume_n n w c0 (Some AwaitFetch) (begin_send w c0 cl) = (sendMessage w c0 cl, None)"
  using resume_after_fetch [of w c0 "begin_send w c0 cl"]
  by (simp add: sendMessage_def try_block_def)


lemma resume_messages:
  "messages (store (fst (resume w c0 ph cl))) = messages (store cl)
   \<or> (\<exists>a. messages (store (fst (resume w c0 ph cl))) = messages (store cl) @ [assistant_message w a])"
  by (cases "(w, c0, ph, cl)" rule: resume.cases)
    (auto simp add: Let_def catch_finally_def store_defs assistant_message_def
      split: sum.splits option.splits)

lemma resume_ends:
  "snd (resume w c0 ph cl) = None \<Longrightarrow>
   \<not> isLoading (store (fst (resume w c0 ph cl))) \<and> \<not> isStreaming (fst (resume w c0 ph cl))"
  by (cases "(w, c0, ph, cl)" rule: resume.cases)
    (auto simp add: Let_def catch_finally_def store_defs
      split: sum.splits option.splits if_splits)

subsection \<open>The input and the page\<close>

lemma dropWhile_rev_dropWhile_rev:
  "xs = [] \<or> \<not> P (hd xs) \<Longrightarrow>
   dropWhile P (rev (dropWhile P (rev xs))) = rev (dropWhile P (rev xs))"
  by (cases xs) (auto simp add: dropWhile_append)

lemma trim_idem: "trim (trim s) = trim s"
proof -
  let ?t = "dropWhile js_whitespace s"
  have "?t = [] \<or> \<not> js_whitespace (hd ?t)"
    using hd_dropWhile [of js_whitespace s] by blast
  then have "dropWhile js_whitespace (trim s) = trim s"
    unfolding trim_def by (rule dropWhile_rev_dropWhile_rev)
  then show ?thesis
    by (simp add: trim_def)
qed

lemma step_click_send:
  "trim (draft p) \<noteq> [] \<Longrightarrow> \<not> chat_disabled (client p) \<Longrightarrow>
   step (Click w) p =
     p\<lparr>client := begin_send w (trim (draft p)) (client p),
       pending := pending p @
         [\<lparr>call_world = w, call_arg = trim (draft p), call_phase = AwaitFetch\<rparr>],
       draft := []\<rparr>"
  by (simp add: step.simps button_disabled_def handleSend_def with_draft_def start_send_def)

lemma step_click_idle:
  "trim (draft p) = [] \<or> chat_disabled (client p) \<Longrightarrow> step (Click w) p = p"
  by (auto simp add: step.simps button_disabled_def)

lemma step_key_send:
  "trim (draft p) \<noteq> [] \<Longrightarrow> \<not> chat_disabled (client p) \<Longrightarrow> key = ''Enter'' \<Longrightarrow> \<not> shiftKey \<Longrightarrow>
   step (KeyPress key shiftKey w) p =
     p\<lparr>client := begin_send w (trim (draft p)) (client p),
       pending := pending p @
         [\<lparr>call_world = w, call_arg = trim (draft p), call_phase = AwaitFetch\<rparr>],
       draft := []\<rparr>"
  by (simp add: step.simps handleKeyPress_def handleSend_def with_draft_def start_send_def)

lemma step_key_idle:
  "trim (draft p) = [] \<or> chat_disabled (client p) \<or> key \<noteq> ''Enter'' \<or> shiftKey \<Longrightarrow>
   step (KeyPress key shiftKey w) p = p"
  by (auto simp add: step.simps handleKeyPress_def handleSend_def with_draft_def)






lemma settle_single:
  "pending p = [\<lparr>call_world = w, call_arg = c0, call_phase = ph\<rparr>] \<Longrightarrow>
   client (run (replicate n (Settle 0)) p) = fst (resume_n n w c0 (Some ph) (client p))
   \<and> pending (run (replicate n (Settle 0)) p) =
       (case snd (resume_n n w c0 (Some ph) (client p)) of
          None \<Rightarrow> []
        | Some ph' \<Rightarrow> [\<lparr>call_world = w, call_arg = c0, call_phase = ph'\<rparr>])"
proof (induction n arbitrary: p ph)
  case 0
  then show ?case by simp
next
  case (Suc n)
  let ?r = "resume w c0 ph (client p)"
  show ?case
  proof (cases "snd ?r")
    case None
    with Suc.prems have "step (Settle 0) p = p\<lparr>client := fst ?r, pending := []\<rparr>"
      by (simp add: step.simps resume_call_def Let_def)
    moreover have "run (replicate n (Settle 0)) q = q" if "pending q = []" for q :: Page
      using that by (induction n) (simp_all add: step.simps resume_call_def)
    ultimately show ?thesis
      using None by (simp add: Let_def resume_n_None)
  next
    case (Some ph')
    with Suc.prems have st: "step (Settle 0) p =
        p\<lparr>client := fst ?r, pending := [\<lparr>call_world = w, call_arg = c0, call_phase = ph'\<rparr>]\<rparr>"
      by (simp add: step.simps resume_call_def Let_def)
    then have "pending (step (Settle 0) p) = [\<lparr>call_world = w, call_arg = c0, call_phase = ph'\<rparr>]"
      by simp
    from Suc.IH [OF this] show ?thesis
      using Some st by (simp add: Let_def)
  qed
qed

lemma exchange_on_page:
  assumes "trim (draft p) \<noteq> []" and "\<not> chat_disabled (client p)" and "pending p = []"
  shows "\<exists>n. client (run (Click w # replicate n (Settle 0)) p) = sendMessage w (trim (draft p)) (client p)
     \<and> pending (run (Click w # replicate n (Settle 0)) p) = []"
proof -
  obtain n where n: "resume_n n w (trim (draft p)) (Some AwaitFetch) (begin_send w (trim (draft p)) (client p))
      = (sendMessage w (trim (draft p)) (client p), None)"
    using resume_sendMessage by blast
  have "pending (step (Click w) p) =
      [\<lparr>call_world = w, call_arg = trim (draft p), call_phase = AwaitFetch\<rparr>]"
    using assms by (simp add: step_click_send)
  from settle_single [OF this, of n] n assms(1,2)
  have "client (run (Click w # replicate n (Settle 0)) p) = sendMessage w (trim (draft p)) (client p)
     \<and> pending (run (Click w # replicate n (Settle 0)) p) = []"
    by (simp add: step_click_send)
  then show ?thesis by blast
qed

lemma trimmed_user_message: "c0 \<noteq> [] \<Longrightarrow> trim c0 = c0 \<Longrightarrow> trimmed_if_user (user_message w c0)"
  by (simp add: trimmed_if_user_def user_message_def)

lemma trimmed_assistant_message: "trimmed_if_user (assistant_message w a)"
  by (simp add: trimmed_if_user_def assistant_message_def)

lemma trimmed_resume:
  assumes inv: "\<forall>m\<in>set (messages (store (client p))). trimmed_if_user m"
  shows "\<forall>m\<in>set (messages (store (client (resume_call k p)))). trimmed_if_user m"
proof (cases "k < length (pending p)")
  case True
  let ?c = "pending p ! k"
  let ?r = "resume (call_world ?c) (call_arg ?c) (call_phase ?c) (client p)"
  have "messages (store (fst ?r)) = messages (store (client p))
      \<or> (\<exists>a. messages (store (fst ?r)) =
            messages (store (client p)) @ [assistant_message (call_world ?c) a])"
    by (rule resume_messages)
  then have "\<forall>m\<in>set (messages (store (fst ?r))). trimmed_if_user m"
    using inv by (auto simp add: trimmed_assistant_message)
  with True show ?thesis
    by (simp add: resume_call_def Let_def)
next
  case False
  with inv show ?thesis by (simp add: resume_call_def)
qed

lemma trimmed_step:
  assumes inv: "\<forall>m\<in>set (messages (store (client p))). trimmed_if_user m"
  shows "\<forall>m\<in>set (messages (store (client (step e p)))). trimmed_if_user m"
proof (cases e)
  case (Change m)
  with inv show ?thesis by (simp add: step.simps)
next
  case (Click w)
  show ?thesis
  proof (cases "trim (draft p) \<noteq> [] \<and> \<not> chat_disabled (client p)")
    case True
    with inv Click show ?thesis
      by (simp add: step_click_send begin_send_eq trimmed_user_message trim_idem)
  next
    case False
    then have "step (Click w) p = p" by (intro step_click_idle) blast
    with inv Click show ?thesis by simp
  qed
next
  case (KeyPress key shiftKey w)
  show ?thesis
  proof (cases "trim (draft p) \<noteq> [] \<and> \<not> chat_disabled (client p) \<and> key = ''Enter'' \<and> \<not> shiftKey")
    case True
    with inv KeyPress show ?thesis
      by (simp add: step_key_send begin_send_eq trimmed_user_message trim_idem)
  next
    case False
    then have "step (KeyPress key shiftKey w) p = p" by (intro step_key_idle) blast
    with inv KeyPress show ?thesis by simp
  qed
next
  case (Settle k)
  with inv show ?thesis by (simp add: step.simps trimmed_resume)
qed

lemma trimmed_run:
  "\<forall>m\<in>set (messages (store (client p))). trimmed_if_user m \<Longrightarrow>
   \<forall>m\<in>set (messages (store (client (run es p)))). trimmed_if_user m"
proof (induction es arbitrary: p)
  case Nil
  then show ?case by simp
next
  case (Cons e es)
  from Cons.prems have "\<forall>m\<in>set (messages (store (client (step e p)))). trimmed_if_user m"
    by (rule trimmed_step)
  then show ?case
    using Cons.IH by simp
qed

subsection \<open>The claims\<close>

text \<open>
  Claim C1, as amended. When the response is a success and its body delivers only
  chunks with \<open>done\<close> false and then ends, \<open>sendMessage\<close> commits no assistant message
  and reports no error: the history gains the user message only, \<open>error\<close> is null, and
  \<open>isLoading\<close> and \<open>isStreaming\<close> are false.
\<close>

theorem stream_end_without_done:
  assumes "fetch w chat_url (chat_request c0) = Inr r" and "ok r"
    and "body r = Some (map (\<lambda>d. Block (Parsed d)) ds)"
    and "\<forall>d\<in>set ds. \<not> done_c d"
  shows "sendMessage w c0 cl =
     \<lparr>store = \<lparr>messages = messages (store cl) @ [user_message w c0],
        isLoading = False, error = None\<rparr>,
      isStreaming = False\<rparr>"
proof -
  have "read_loop w (map (\<lambda>d. Block (Parsed d)) ds @ []) [] cl' =
        (concat (map content_c ds), cl', None)" for cl'
    using assms(4) by (simp only: read_loop_not_done) simp
  then show ?thesis
    using assms(1-3)
    by (simp add: sendMessage_ok_body catch_finally_def begin_send_eq store_defs)
qed

theorem stream_end_without_done_witness:
  "sendMessage (streaming_world [chunk ''Hel'' False]) ''Hi'' initial_client =
     \<lparr>store = \<lparr>messages =
         [\<lparr>id_msg = ''id-user'', content = ''Hi'', role = User, timestamp = 1000\<rparr>],
        isLoading = False, error = None\<rparr>,
      isStreaming = False\<rparr>"
  using stream_end_without_done [of "streaming_world [chunk ''Hel'' False]" "''Hi''"
      "\<lparr>ok = True, status = 200, text_body = Inr [], body = Some [chunk ''Hel'' False]\<rparr>"
      "[\<lparr>content_c = ''Hel'', done_c = False\<rparr>]" initial_client]
  by (simp add: example_defs)

theorem stream_end_error_counterexample:
  "error (store (sendMessage (streaming_world [chunk ''Hel'' False]) ''Hi'' initial_client)) = None"
  by (simp add: sendMessage_def try_block_def after_fetch_def catch_finally_def begin_send_def
      store_defs example_defs)

text \<open>
  Claim C2, as amended. The body of the request holds exactly one message, the newly
  submitted user message, and \<open>stream\<close> true, whatever the history is; and the exchange
  uses \<open>fetch\<close> at this one request only: two worlds that agree on it (and on the
  identifiers and dates) give the same result.
\<close>

theorem request_holds_new_message_only:
  "req_messages (req_body (chat_request c0)) = [\<lparr>wrole = User, wcontent = c0\<rparr>]
   \<and> stream (req_body (chat_request c0))
   \<and> (fetch w chat_url (chat_request c0) = fetch w' chat_url (chat_request c0)
        \<and> uuidv4 w = uuidv4 w' \<and> now w = now w'
      \<longrightarrow> sendMessage w c0 cl = sendMessage w' c0 cl)"
proof -
  have "sendMessage w c0 cl = sendMessage w' c0 cl"
    if f: "fetch w chat_url (chat_request c0) = fetch w' chat_url (chat_request c0)"
      and u: "uuidv4 w = uuidv4 w'" and n: "now w = now w'"
  proof -
    have loop: "read_loop w reads acc x = read_loop w' reads acc x" for reads acc x
      using u n by (rule read_loop_cong_world)
    have "begin_send w c0 cl = begin_send w' c0 cl"
      by (simp add: begin_send_def u n)
    then show ?thesis
      by (simp add: sendMessage_def try_block_def after_fetch_def f loop
          split: sum.splits option.splits)
  qed
  then show ?thesis
    by (simp add: chat_request_def)
qed

theorem request_holds_new_message_only_witness:
  "req_messages (req_body (chat_request ''Hi'')) = [\<lparr>wrole = User, wcontent = ''Hi''\<rparr>]
   \<and> stream (req_body (chat_request ''Hi''))
   \<and> sendMessage (streaming_world [chunk ''Hello'' True]) ''Hi'' initial_client =
       sendMessage (single_message_world [chunk ''Hello'' True]) ''Hi'' initial_client"
  using request_holds_new_message_only [of "''Hi''" "streaming_world [chunk ''Hello'' True]"
      "single_message_world [chunk ''Hello'' True]" initial_client]
  by (simp add: streaming_world_def single_message_world_def chat_request_def)

theorem request_history_counterexample:
  "req_messages (req_body (chat_request ''Bye'')) \<noteq>
     map wire_of (messages (store
       (sendMessage (streaming_world [chunk ''Hello'' True]) ''Hi'' initial_client)))
     @ [\<lparr>wrole = User, wcontent = ''Bye''\<rparr>]"
  by (simp add: chat_request_def sendMessage_def try_block_def after_fetch_def catch_finally_def
      begin_send_def store_defs example_defs wire_of_def Let_def)

text \<open>
  Claim C3. The accumulated text of the read loop is the text it started with followed
  by the contents of the chunks it consumed, in arrival order; and on a body that
  starts with the chunks \<open>Hel\<close>, \<open>lo\<close> and the empty chunk with \<open>done\<close> true, the loop
  finalizes the assistant message \<open>Hello\<close>. A message the loop commits holds the
  accumulated text.
\<close>

theorem accumulated_is_concatenation:
  "fst (read_loop w reads acc cl) = acc @ concat (map content_c (consumed reads))
   \<and> (messages (store (fst (snd (read_loop w reads acc cl)))) = messages (store cl)
      \<or> messages (store (fst (snd (read_loop w reads acc cl)))) =
          messages (store cl) @ [assistant_message w (fst (read_loop w reads acc cl))])
   \<and> read_loop w (chunk ''Hel'' False # chunk ''lo'' False # chunk [] True # rest) [] cl =
       (''Hello'', on_store (addMessage (uuidv4 w 1) (now w 1) ''Hello'' Assistant) cl, None)"
  using read_loop_messages [of w reads acc cl]
  by (simp add: read_loop_acc chunk_def Let_def)

theorem accumulated_is_concatenation_witness:
  "messages (store (sendMessage
      (streaming_world [chunk ''Hel'' False, chunk ''lo'' False, chunk [] True]) ''Hi'' initial_client)) =
     [\<lparr>id_msg = ''id-user'', content = ''Hi'', role = User, timestamp = 1000\<rparr>,
      \<lparr>id_msg = ''id-assistant'', content = ''Hello'', role = Assistant, timestamp = 1001\<rparr>]"
  using accumulated_is_concatenation [of "streaming_world [chunk ''Hel'' False, chunk ''lo'' False, chunk [] True]"
      "[]" "[]" "(begin_send (streaming_world [chunk ''Hel'' False, chunk ''lo'' False, chunk [] True]) ''Hi'' initial_client)\<lparr>isStreaming := True\<rparr>" "[]"]
  by (simp add: sendMessage_def try_block_def after_fetch_def catch_finally_def begin_send_eq
      store_defs streaming_world_def initial_client_def initial_store_def user_message_def)

text \<open>
  Claim C4, as amended. When the response is a success and its body delivers chunks
  with \<open>done\<close> false and then a chunk with \<open>done\<close> true, \<open>sendMessage\<close> appends the user
  message and exactly one assistant message; its content is the concatenation of the
  contents of all these chunks, the one with \<open>done\<close> true included (so of the others
  only when that one is empty). Reads after that chunk change nothing.
\<close>

theorem done_commits_all_consumed:
  assumes "fetch w chat_url (chat_request c0) = Inr r" and "ok r"
    and "body r = Some (map (\<lambda>d. Block (Parsed d)) ds @ Block (Parsed t) # rest)"
    and "\<forall>d\<in>set ds. \<not> done_c d" and "done_c t"
  shows "sendMessage w c0 cl =
     \<lparr>store = \<lparr>messages = messages (store cl) @
         [user_message w c0, assistant_message w (concat (map content_c ds) @ content_c t)],
        isLoading = False, error = None\<rparr>,
      isStreaming = False\<rparr>"
proof -
  have "read_loop w (map (\<lambda>d. Block (Parsed d)) ds @ Block (Parsed t) # rest) [] cl' =
        (concat (map content_c ds) @ content_c t,
         on_store (addMessage (uuidv4 w 1) (now w 1) (concat (map content_c ds) @ content_c t) Assistant) cl',
         None)" for cl'
    using assms(4,5) by (simp only: read_loop_not_done read_loop_done) simp
  then show ?thesis
    using assms(1-3)
    by (simp add: sendMessage_ok_body catch_finally_def begin_send_eq store_defs assistant_message_def)
qed

theorem done_commits_all_consumed_witness:
  "sendMessage (streaming_world [chunk ''Hel'' False, chunk ''lo'' True, chunk ''!'' False]) ''Hi'' initial_client =
     \<lparr>store = \<lparr>messages =
         [\<lparr>id_msg = ''id-user'', content = ''Hi'', role = User, timestamp = 1000\<rparr>,
          \<lparr>id_msg = ''id-assistant'', content = ''Hello'', role = Assistant, timestamp = 1001\<rparr>],
        isLoading = False, error = None\<rparr>,
      isStreaming = False\<rparr>"
  using done_commits_all_consumed [of "streaming_world [chunk ''Hel'' False, chunk ''lo'' True, chunk ''!'' False]"
      "''Hi''"
      "\<lparr>ok = True, status = 200, text_body = Inr [],
        body = Some [chunk ''Hel'' False, chunk ''lo'' True, chunk ''!'' False]\<rparr>"
      "[\<lparr>content_c = ''Hel'', done_c = False\<rparr>]" "\<lparr>content_c = ''lo'', done_c = True\<rparr>"
      "[chunk ''!'' False]" initial_client]
  by (simp add: example_defs)

theorem non_terminal_only_counterexample:
  "content (last (messages (store
      (sendMessage (streaming_world [chunk ''Hel'' False, chunk ''lo'' True]) ''Hi'' initial_client))))
   \<noteq> concat (map content_c (filter (\<lambda>d. \<not> done_c d)
        [\<lparr>content_c = ''Hel'', done_c = False\<rparr>, \<lparr>content_c = ''lo'', done_c = True\<rparr>]))"
  by (simp add: sendMessage_def try_block_def after_fetch_def catch_finally_def begin_send_def
      store_defs example_defs Let_def)

text \<open>
  Claim C5. When the response is not a success, \<open>sendMessage\<close> records the error
  \<open>Failed to send message: \<close> followed by the status, a space and the text of the
  response, appends no assistant message, and leaves \<open>isLoading\<close> false.
\<close>

theorem failed_status_is_reported:
  assumes "fetch w chat_url (chat_request c0) = Inr r" and "\<not> ok r"
    and "text_body r = Inr errorText"
  shows "sendMessage w c0 cl =
     \<lparr>store = \<lparr>messages = messages (store cl) @ [user_message w c0],
        isLoading = False,
        error = Some (''Failed to send message: '' @ show_nat (status r) @ '' '' @ errorText)\<rparr>,
      isStreaming = False\<rparr>"
  using assms
  by (simp add: sendMessage_def try_block_def after_fetch_def catch_finally_def catch_message_def
      begin_send_eq store_defs)

theorem failed_status_is_reported_witness:
  "sendMessage (failing_world 500 ''rate limited'') ''Hi'' initial_client =
     \<lparr>store = \<lparr>messages =
         [\<lparr>id_msg = ''id-user'', content = ''Hi'', role = User, timestamp = 1000\<rparr>],
        isLoading = False,
        error = Some ''Failed to send message: 500 rate limited''\<rparr>,
      isStreaming = False\<rparr>"
  using failed_status_is_reported [of "failing_world 500 ''rate limited''" "''Hi''"
      "\<lparr>ok = False, status = 500, text_body = Inr ''rate limited'', body = None\<rparr>"
      "''rate limited''" initial_client]
  by (simp add: example_defs show_nat.simps digit_char_def)

text \<open>
  Claim C6. The part of \<open>sendMessage\<close> that runs before \<open>fetch\<close> appends exactly one
  user message with the submitted content, sets \<open>isLoading\<close>, and clears the error;
  it does not depend on \<open>fetch\<close>, and the rest of \<open>sendMessage\<close> runs after it. On the
  page, a click that sends leaves this state, with the call waiting for \<open>fetch\<close>.
\<close>

theorem submission_starts_exchange:
  "store (begin_send w c0 cl) =
     \<lparr>messages = messages (store cl) @
        [\<lparr>id_msg = uuidv4 w 0, content = c0, role = User, timestamp = now w 0\<rparr>],
      isLoading = True, error = None\<rparr>
   \<and> isStreaming (begin_send w c0 cl) = isStreaming cl
   \<and> begin_send (w\<lparr>fetch := f\<rparr>) c0 cl = begin_send w c0 cl
   \<and> sendMessage w c0 cl = catch_finally (after_fetch w c0 (begin_send w c0 cl))
   \<and> (trim (draft p) \<noteq> [] \<and> \<not> chat_disabled (client p) \<longrightarrow>
        client (step (Click w) p) = begin_send w (trim (draft p)) (client p)
        \<and> pending (step (Click w) p) =
            pending p @ [\<lparr>call_world = w, call_arg = trim (draft p), call_phase = AwaitFetch\<rparr>])"
  by (simp add: begin_send_def store_defs sendMessage_def try_block_def step_click_send)

theorem submission_starts_exchange_witness:
  "store (begin_send (failing_world 500 ''rate limited'') ''Hi''
      \<lparr>store = \<lparr>messages = [], isLoading = False, error = Some ''old error''\<rparr>, isStreaming = False\<rparr>) =
     \<lparr>messages = [\<lparr>id_msg = ''id-user'', content = ''Hi'', role = User, timestamp = 1000\<rparr>],
      isLoading = True, error = None\<rparr>
   \<and> step (Click hello_world) (initial_page\<lparr>draft := '' Hi ''\<rparr>) =
     \<lparr>client = \<lparr>store = \<lparr>messages =
          [\<lparr>id_msg = ''id-user'', content = ''Hi'', role = User, timestamp = 1000\<rparr>],
          isLoading = True, error = None\<rparr>, isStreaming = False\<rparr>,
      draft = [],
      pending = [\<lparr>call_world = hello_world, call_arg = ''Hi'', call_phase = AwaitFetch\<rparr>]\<rparr>"
proof -
  have a: "trim '' Hi '' = ''Hi''"
    by (simp add: trim_def js_whitespace_def)
  have b: "\<not> chat_disabled (client (initial_page\<lparr>draft := '' Hi ''\<rparr>))"
    by (simp add: chat_disabled_def initial_page_def initial_client_def initial_store_def)
  have c: "step (Click hello_world) (initial_page\<lparr>draft := '' Hi ''\<rparr>) =
      (initial_page\<lparr>draft := '' Hi ''\<rparr>)
        \<lparr>client := begin_send hello_world ''Hi'' initial_client,
         pending := [\<lparr>call_world = hello_world, call_arg = ''Hi'', call_phase = AwaitFetch\<rparr>],
         draft := []\<rparr>"
    using a b by (simp add: step_click_send initial_page_def)
  show ?thesis
    using c submission_starts_exchange [of "failing_world 500 ''rate limited''" "''Hi''"
        "\<lparr>store = \<lparr>messages = [], isLoading = False, error = Some ''old error''\<rparr>, isStreaming = False\<rparr>"
        "fetch hello_world" "initial_page\<lparr>draft := '' Hi ''\<rparr>"]
      submission_starts_exchange [of hello_world "''Hi''" initial_client
        "fetch hello_world" "initial_page\<lparr>draft := '' Hi ''\<rparr>"]
    by (simp add: failing_world_def hello_world_def streaming_world_def initial_page_def
        initial_client_def initial_store_def)
qed

text \<open>
  Claim C7. No step of an exchange removes or changes a message of the history:
  \<open>setLoading\<close> and \<open>setError\<close> keep the list, \<open>addMessage\<close> appends one message, each
  resumption of a call keeps the list or appends one assistant message, and
  \<open>sendMessage\<close>, on every path, leaves the history it found as a prefix of the new
  one, followed by the user message and at most one assistant message. When it ends
  with an error, the history is the old one followed by the user message.
\<close>

theorem exchange_only_appends:
  "messages (setLoading b st) = messages st
   \<and> messages (setError e st) = messages st
   \<and> messages (addMessage u t c r st) =
       messages st @ [\<lparr>id_msg = u, content = c, role = r, timestamp = t\<rparr>]
   \<and> messages (store (begin_send w c0 cl)) = messages (store cl) @ [user_message w c0]
   \<and> (messages (store (fst (resume w c0 ph cl))) = messages (store cl)
      \<or> (\<exists>a. messages (store (fst (resume w c0 ph cl))) =
            messages (store cl) @ [assistant_message w a]))
   \<and> (messages (store (sendMessage w c0 cl)) = messages (store cl) @ [user_message w c0]
      \<or> (\<exists>a. messages (store (sendMessage w c0 cl)) =
            messages (store cl) @ [user_message w c0, assistant_message w a]))
   \<and> take (length (messages (store cl))) (messages (store (sendMessage w c0 cl))) = messages (store cl)
   \<and> (error (store (sendMessage w c0 cl)) \<noteq> None \<longrightarrow>
        messages (store (sendMessage w c0 cl)) = messages (store cl) @ [user_message w c0])"
proof -
  have "messages (store (sendMessage w c0 cl)) = messages (store cl) @ [user_message w c0]
      \<or> (\<exists>a. messages (store (sendMessage w c0 cl)) =
            messages (store cl) @ [user_message w c0, assistant_message w a])"
    using sendMessage_shape [of w c0 cl] by auto
  moreover have "take (length (messages (store cl))) (messages (store (sendMessage w c0 cl)))
      = messages (store cl)"
    using sendMessage_shape [of w c0 cl] by auto
  moreover have "error (store (sendMessage w c0 cl)) \<noteq> None \<longrightarrow>
        messages (store (sendMessage w c0 cl)) = messages (store cl) @ [user_message w c0]"
    using sendMessage_shape [of w c0 cl] by auto
  moreover note resume_messages [of w c0 ph cl]
  ultimately show ?thesis
    by (simp add: begin_send_eq store_defs)
qed

theorem exchange_only_appends_witness:
  "messages (store (sendMessage (failing_world 500 ''rate limited'') ''Bye''
      (sendMessage (streaming_world [chunk ''Hello'' True]) ''Hi'' initial_client))) =
     [\<lparr>id_msg = ''id-user'', content = ''Hi'', role = User, timestamp = 1000\<rparr>,
      \<lparr>id_msg = ''id-assistant'', content = ''Hello'', role = Assistant, timestamp = 1001\<rparr>,
      \<lparr>id_msg = ''id-user'', content = ''Bye'', role = User, timestamp = 1000\<rparr>]
   \<and> error (store (sendMessage (failing_world 500 ''rate limited'') ''Bye''
      (sendMessage (streaming_world [chunk ''Hello'' True]) ''Hi'' initial_client))) \<noteq> None"
proof -
  have e: "error (store (sendMessage (failing_world 500 ''rate limited'') ''Bye''
      (sendMessage (streaming_world [chunk ''Hello'' True]) ''Hi'' initial_client))) \<noteq> None"
    by (simp add: sendMessage_def try_block_def after_fetch_def catch_finally_def
        store_defs failing_world_def)
  have m: "messages (store (sendMessage (streaming_world [chunk ''Hello'' True]) ''Hi'' initial_client)) =
     [\<lparr>id_msg = ''id-user'', content = ''Hi'', role = User, timestamp = 1000\<rparr>,
      \<lparr>id_msg = ''id-assistant'', content = ''Hello'', role = Assistant, timestamp = 1001\<rparr>]"
    by (simp add: sendMessage_def try_block_def after_fetch_def catch_finally_def begin_send_def
        store_defs example_defs Let_def)
  show ?thesis
    using e m exchange_only_appends [of True initial_store None "[]" 0 "[]" User
        "failing_world 500 ''rate limited''" "''Bye''"
        "sendMessage (streaming_world [chunk ''Hello'' True]) ''Hi'' initial_client" AwaitFetch]
    by (simp add: user_message_def failing_world_def)
qed





text \<open>
  Claim C10. A text that is empty after trimming is ignored: \<open>handleSend\<close> calls nothing
  and the page stays as it is. Otherwise, when the input is enabled, the user message
  appended holds the trimmed text. So in every page reached from the initial one,
  each user message of the history holds a text that is not empty and is trimmed.
\<close>

theorem user_messages_are_trimmed:
  "(trim (draft p) = [] \<longrightarrow>
      handleSend onSend disabled (draft p) x = (draft p, x)
      \<and> step (Click w) p = p
      \<and> step (KeyPress key shiftKey w) p = p)
   \<and> (trim (draft p) \<noteq> [] \<and> \<not> chat_disabled (client p) \<longrightarrow>
      messages (store (client (step (Click w) p))) =
        messages (store (client p)) @ [user_message w (trim (draft p))]
      \<and> pending (step (Click w) p) =
        pending p @ [\<lparr>call_world = w, call_arg = trim (draft p), call_phase = AwaitFetch\<rparr>])
   \<and> (\<forall>m\<in>set (messages (store (client (run es initial_page)))).
        role m = User \<longrightarrow> content m \<noteq> [] \<and> trim (content m) = content m)"
proof -
  have "\<forall>m\<in>set (messages (store (client (run es initial_page)))). trimmed_if_user m"
    by (rule trimmed_run) (simp add: initial_page_def initial_client_def initial_store_def)
  then have "\<forall>m\<in>set (messages (store (client (run es initial_page)))).
        role m = User \<longrightarrow> content m \<noteq> [] \<and> trim (content m) = content m"
    by (simp add: trimmed_if_user_def)
  then show ?thesis
    by (simp add: handleSend_def step_click_idle step_key_idle step_click_send begin_send_eq)
qed

theorem user_messages_are_trimmed_witness:
  "trim ''  '' = []
   \<and> step (Click (hello_world)) (initial_page\<lparr>draft := ''  ''\<rparr>)
       = initial_page\<lparr>draft := ''  ''\<rparr>
   \<and> trim '' Hi '' = ''Hi''
   \<and> messages (store (client (step (Click (hello_world))
        (initial_page\<lparr>draft := '' Hi ''\<rparr>)))) =
       [\<lparr>id_msg = ''id-user'', content = ''Hi'', role = User, timestamp = 1000\<rparr>]"
proof -
  have a: "trim ''  '' = []" and b: "trim '' Hi '' = ''Hi''"
    by (simp_all add: trim_def js_whitespace_def)
  have c: "\<not> chat_disabled (client (initial_page\<lparr>draft := '' Hi ''\<rparr>))"
    by (simp add: chat_disabled_def initial_page_def initial_client_def initial_store_def)
  show ?thesis
    using a b c
      user_messages_are_trimmed [of "initial_page\<lparr>draft := ''  ''\<rparr>"
        "\<lambda>c q. q" False initial_page "hello_world" "''Enter''" False "[]"]
      user_messages_are_trimmed [of "initial_page\<lparr>draft := '' Hi ''\<rparr>"
        "\<lambda>c q. q" False initial_page "hello_world" "''Enter''" False "[]"]
    by (simp add: initial_page_def initial_client_def initial_store_def user_message_def
        hello_world_def streaming_world_def)
qed

end
